theory Spec2Isabelle
  imports Complex_Main "HOL-Library.Char_ord" "HOL-Library.List_Lexorder"
begin

section \<open>Python values used by \<^verbatim>\<open>analyzer_two.py\<close>\<close>

text \<open>
  Every exception the analyzer can raise is a value. A method that raises returns
  \<open>Inl\<close> of the exception; a method that returns normally returns \<open>Inr\<close> of what it
  handed to the plotting calls.
\<close>

datatype py_error = AttributeError | ZeroDivisionError | ValueError

subsection \<open>\<^verbatim>\<open>datetime\<close> and \<^verbatim>\<open>timedelta\<close>\<close>

text \<open>
  The timestamps are \<^verbatim>\<open>datetime.datetime\<close> objects of the Python standard library.
  The part of the library the analyzer uses is written out: the proleptic Gregorian
  ordinal of a date, the subtraction of two datetimes (a normalised \<^verbatim>\<open>timedelta\<close>), the
  \<^verbatim>\<open>days\<close> attribute of the difference, and \<^verbatim>\<open>strftime('%Y-%m')\<close>. All timestamps
  are of the same kind (all naive, or all in one time zone), so that subtraction is
  defined.
\<close>

record datetime =
  year :: nat
  month :: nat
  day :: nat
  hour :: nat
  minute :: nat
  second :: nat
  microsecond :: nat

record timedelta =
  days :: int
  seconds :: int
  microseconds :: int

definition is_leap :: "nat \<Rightarrow> bool" where
  "is_leap y = (y mod 4 = 0 \<and> (y mod 100 \<noteq> 0 \<or> y mod 400 = 0))"

definition days_before_year :: "nat \<Rightarrow> int" where
  "days_before_year y =
     (let y' = int y - 1 in y' * 365 + y' div 4 - y' div 100 + y' div 400)"

definition days_in_month :: "int list" where
  "days_in_month = [31, 28, 31, 30, 31, 30, 31, 31, 30, 31, 30, 31]"

definition days_before_month :: "nat \<Rightarrow> nat \<Rightarrow> int" where
  "days_before_month y m =
     sum_list (take (m - 1) days_in_month) + (if 2 < m \<and> is_leap y then 1 else 0)"

definition toordinal :: "datetime \<Rightarrow> int" where
  "toordinal d = days_before_year (year d) + days_before_month (year d) (month d) + int (day d)"

definition seconds_of_day :: "datetime \<Rightarrow> int" where
  "seconds_of_day d = int (second d) + int (minute d) * 60 + int (hour d) * 3600"

text \<open>
  The \<^verbatim>\<open>timedelta\<close> constructor normalises its arguments with floor division, as Python's
  \<^verbatim>\<open>divmod\<close> does: microseconds into \<open>[0, 10\<^sup>6)\<close> carrying into seconds, seconds into
  \<open>[0, 86400)\<close> carrying into days. The days may be negative. On \<open>int\<close>, \<open>div\<close> and
  \<open>mod\<close> of HOL round like Python's \<^verbatim>\<open>//\<close> and \<^verbatim>\<open>%\<close> for a positive divisor.
\<close>

definition new_timedelta :: "int \<Rightarrow> int \<Rightarrow> int \<Rightarrow> timedelta" where
  "new_timedelta d s us =
     (let s' = s + us div 1000000;
          us' = us mod 1000000;
          d' = d + s' div 86400;
          s'' = s' mod 86400
      in \<lparr>days = d', seconds = s'', microseconds = us'\<rparr>)"

definition datetime_sub :: "datetime \<Rightarrow> datetime \<Rightarrow> timedelta" where
  "datetime_sub a b =
     new_timedelta (toordinal a - toordinal b)
                   (seconds_of_day a - seconds_of_day b)
                   (int (microsecond a) - int (microsecond b))"

text \<open>The position of a timestamp on the time line, in microseconds.\<close>

definition total_microseconds :: "datetime \<Rightarrow> int" where
  "total_microseconds d =
     (toordinal d * 86400 + seconds_of_day d) * 1000000 + int (microsecond d)"

text \<open>
  \<^verbatim>\<open>strftime('%Y-%m')\<close>: the year with century as four decimal digits, a hyphen, the
  month as two decimal digits (the documented, zero-padded form; years are at most 9999).
\<close>

definition digit_char :: "nat \<Rightarrow> char" where
  "digit_char n = ''0123456789'' ! (n mod 10)"

definition strftime_Ym :: "datetime \<Rightarrow> string" where
  "strftime_Ym d =
     [digit_char (year d div 1000), digit_char (year d div 100),
      digit_char (year d div 10), digit_char (year d),
      CHR ''-'',
      digit_char (month d div 10), digit_char (month d)]"

subsection \<open>Division, dictionaries, sorting\<close>

text \<open>
  \<^verbatim>\<open>a / b\<close> on two Python ints raises \<^verbatim>\<open>ZeroDivisionError\<close> when \<open>b\<close> is zero and
  otherwise returns the float nearest to the quotient. The model keeps the exact
  quotient as a rational number.
\<close>

definition py_truediv :: "int \<Rightarrow> int \<Rightarrow> py_error + rat" where
  "py_truediv a b = (if b = 0 then Inl ZeroDivisionError else Inr (of_int a / of_int b))"

text \<open>
  A \<^verbatim>\<open>dict\<close> keeps its keys in insertion order, so it is an association list with
  distinct keys: a new key goes to the end, a known key keeps its place.

  \<open>dict_append k v d\<close> is
  \<^verbatim>\<open>if k not in d: d[k] = []\<close> followed by \<^verbatim>\<open>d[k].append(v)\<close>;
  \<open>dict_incr k d\<close> is
  \<^verbatim>\<open>if k not in d: d[k] = 0\<close> followed by \<^verbatim>\<open>d[k] += 1\<close>.
\<close>

fun dict_append :: "'k \<Rightarrow> 'v \<Rightarrow> ('k \<times> 'v list) list \<Rightarrow> ('k \<times> 'v list) list" where
  "dict_append k v [] = [(k, [v])]"
| "dict_append k v ((k', vs) # d) =
     (if k' = k then (k', vs @ [v]) # d else (k', vs) # dict_append k v d)"

fun dict_incr :: "'k \<Rightarrow> ('k \<times> nat) list \<Rightarrow> ('k \<times> nat) list" where
  "dict_incr k [] = [(k, 1)]"
| "dict_incr k ((k', n) # d) =
     (if k' = k then (k', n + 1) # d else (k', n) # dict_incr k d)"

text \<open>
  \<^verbatim>\<open>a, b = zip(*items)\<close>: with no items \<^verbatim>\<open>zip()\<close> yields nothing and the unpacking
  into two names raises \<^verbatim>\<open>ValueError\<close>; otherwise \<open>a\<close> is the tuple of the keys and \<open>b\<close>
  the tuple of the values.
\<close>

definition unzip_items :: "('a \<times> 'b) list \<Rightarrow> py_error + ('a list \<times> 'b list)" where
  "unzip_items items =
     (if items = [] then Inl ValueError else Inr (map fst items, map snd items))"

text \<open>
  \<^verbatim>\<open>sorted(xs, key=f, reverse=True)\<close>: the list is reversed, sorted stably by the key in
  ascending order, and reversed again, so that elements with equal keys keep their
  original order. \<open>sort_key\<close> is a stable insertion sort.
\<close>

definition sorted_reverse :: "('a \<Rightarrow> 'b::linorder) \<Rightarrow> 'a list \<Rightarrow> 'a list" where
  "sorted_reverse f xs = rev (sort_key f (rev xs))"

subsection \<open>The \<^verbatim>\<open>pandas\<close> calls\<close>

text \<open>
  \<^verbatim>\<open>pd.DataFrame(data)\<close> on a dict of two lists raises \<^verbatim>\<open>ValueError\<close> ("All arrays
  must be of the same length") unless the two lists have the same length.
\<close>

definition DataFrame :: "string list \<Rightarrow> string list \<Rightarrow> py_error + (string list \<times> string list)" where
  "DataFrame created_month closed_month =
     (if length created_month = length closed_month
      then Inr (created_month, closed_month) else Inl ValueError)"

text \<open>
  \<^verbatim>\<open>value_counts()\<close> counts the occurrences of each distinct value and lists them with
  the largest count first; \<^verbatim>\<open>sort_index()\<close> then orders the entries by their key, here
  strings compared character by character.
\<close>

fun count_values :: "'k list \<Rightarrow> ('k \<times> nat) list \<Rightarrow> ('k \<times> nat) list" where
  "count_values [] d = d"
| "count_values (x # xs) d = count_values xs (dict_incr x d)"

definition value_counts :: "string list \<Rightarrow> (string \<times> nat) list" where
  "value_counts xs = sorted_reverse snd (count_values xs [])"

definition sort_index :: "(string \<times> nat) list \<Rightarrow> (string \<times> nat) list" where
  "sort_index s = sort_key fst s"

section \<open>The issue records and the analyzer\<close>

text \<open>
  Modelled from the spec: the class \<^verbatim>\<open>Issue\<close> (\<^verbatim>\<open>model.py\<close>) is not part of the
  sources. An issue has an identifier, two optional timestamps and its labels, in the
  order the loader delivered them. The attribute \<^verbatim>\<open>duration_days\<close> does not exist until
  \<^verbatim>\<open>calculate_issue_durations\<close> sets it: \<open>None\<close> is the absent attribute, for which
  \<^verbatim>\<open>hasattr\<close> is false and whose read raises \<^verbatim>\<open>AttributeError\<close>.
\<close>

record issue =
  issue_id :: int
  created_date :: "datetime option"
  updated_date :: "datetime option"
  labels :: "string list"
  duration_days :: "int option"

text \<open>The analyzer object: its only attribute is the label filter read from the configuration.\<close>

record analyzer_two =
  label_filter :: "string option"

subsection \<open>\<^verbatim>\<open>calculate_issue_durations\<close>\<close>

text \<open>
  A \<^verbatim>\<open>datetime\<close> is always truthy, so the test
  \<^verbatim>\<open>issue.created_date and issue.updated_date\<close> holds exactly when neither is \<^verbatim>\<open>None\<close>.
  The records are mutated in place; the model returns the sequence after the loop.
\<close>

definition set_duration :: "issue \<Rightarrow> issue" where
  "set_duration i =
     (case created_date i of
        None \<Rightarrow> i
      | Some c \<Rightarrow>
          (case updated_date i of
             None \<Rightarrow> i
           | Some u \<Rightarrow> i\<lparr>duration_days := Some (days (datetime_sub u c))\<rparr>))"

fun calculate_issue_durations :: "analyzer_two \<Rightarrow> issue list \<Rightarrow> issue list" where
  "calculate_issue_durations self [] = []"
| "calculate_issue_durations self (i # issues) =
     set_duration i # calculate_issue_durations self issues"

subsection \<open>\<^verbatim>\<open>issue_lifecycle_visualization\<close>\<close>

text \<open>
  \<^verbatim>\<open>if self.label_filter:\<close> holds for a non-empty string only; \<^verbatim>\<open>None\<close> and the empty
  string leave the sequence as it is. The filtered list is a new local list.
\<close>

definition filter_by_label :: "analyzer_two \<Rightarrow> issue list \<Rightarrow> issue list" where
  "filter_by_label self issues =
     (case label_filter self of
        None \<Rightarrow> issues
      | Some f \<Rightarrow> if f = [] then issues else filter (\<lambda>i. f \<in> set (labels i)) issues)"

text \<open>The inner loop over the labels of one issue; the read of \<^verbatim>\<open>issue.duration_days\<close> may raise.\<close>

fun append_durations ::
  "issue \<Rightarrow> string list \<Rightarrow> (string \<times> int list) list \<Rightarrow> py_error + (string \<times> int list) list" where
  "append_durations i [] ld = Inr ld"
| "append_durations i (l # ls) ld =
     (case duration_days i of
        None \<Rightarrow> Inl AttributeError
      | Some d \<Rightarrow> append_durations i ls (dict_append l d ld))"

fun label_durations ::
  "issue list \<Rightarrow> (string \<times> int list) list \<Rightarrow> py_error + (string \<times> int list) list" where
  "label_durations [] ld = Inr ld"
| "label_durations (i # issues) ld =
     (case append_durations i (labels i) ld of
        Inl e \<Rightarrow> Inl e
      | Inr ld' \<Rightarrow> label_durations issues ld')"

fun avg_label_durations :: "(string \<times> int list) list \<Rightarrow> py_error + (string \<times> rat) list" where
  "avg_label_durations [] = Inr []"
| "avg_label_durations ((l, durations) # rest) =
     (case py_truediv (sum_list durations) (int (length durations)) of
        Inl e \<Rightarrow> Inl e
      | Inr a \<Rightarrow>
          (case avg_label_durations rest of
             Inl e \<Rightarrow> Inl e
           | Inr r \<Rightarrow> Inr ((l, a) # r)))"

text \<open>
  The result is what \<^verbatim>\<open>plt.bar\<close> receives: the labels and their average durations.
\<close>

definition issue_lifecycle_visualization ::
  "analyzer_two \<Rightarrow> issue list \<Rightarrow> py_error + (string list \<times> rat list)" where
  "issue_lifecycle_visualization self issues =
     (case label_durations (filter_by_label self issues) [] of
        Inl e \<Rightarrow> Inl e
      | Inr ld \<Rightarrow>
          (case avg_label_durations ld of
             Inl e \<Rightarrow> Inl e
           | Inr avg \<Rightarrow> unzip_items avg))"

subsection \<open>\<^verbatim>\<open>seasonal_trends_analysis\<close>\<close>

fun created_month :: "issue list \<Rightarrow> string list" where
  "created_month [] = []"
| "created_month (i # issues) =
     (case created_date i of
        None \<Rightarrow> created_month issues
      | Some c \<Rightarrow> strftime_Ym c # created_month issues)"

fun closed_month :: "issue list \<Rightarrow> string list" where
  "closed_month [] = []"
| "closed_month (i # issues) =
     (case updated_date i of
        None \<Rightarrow> closed_month issues
      | Some u \<Rightarrow> strftime_Ym u # closed_month issues)"

text \<open>
  The result is the pair of series that are plotted: \<^verbatim>\<open>created_counts\<close> and
  \<^verbatim>\<open>closed_counts\<close>.
\<close>

definition seasonal_trends_analysis ::
  "analyzer_two \<Rightarrow> issue list \<Rightarrow> py_error + ((string \<times> nat) list \<times> (string \<times> nat) list)" where
  "seasonal_trends_analysis self issues =
     (case DataFrame (created_month issues) (closed_month issues) of
        Inl e \<Rightarrow> Inl e
      | Inr (df_created, df_closed) \<Rightarrow>
          Inr (sort_index (value_counts df_created), sort_index (value_counts df_closed)))"

subsection \<open>\<^verbatim>\<open>bottleneck_analysis\<close>\<close>

text \<open>
  Line 103: the generator sums \<^verbatim>\<open>duration_days\<close> over the issues that have the
  attribute; the divisor is \<^verbatim>\<open>len(issues)\<close>.
\<close>

fun present_durations :: "issue list \<Rightarrow> int list" where
  "present_durations [] = []"
| "present_durations (i # issues) =
     (case duration_days i of
        None \<Rightarrow> present_durations issues
      | Some d \<Rightarrow> d # present_durations issues)"

definition avg_duration :: "issue list \<Rightarrow> py_error + rat" where
  "avg_duration issues =
     py_truediv (sum_list (present_durations issues)) (int (length issues))"

text \<open>Line 105: the comprehension reads \<^verbatim>\<open>issue.duration_days\<close> of every issue.\<close>

fun bottleneck_issues :: "rat \<Rightarrow> issue list \<Rightarrow> py_error + issue list" where
  "bottleneck_issues avg [] = Inr []"
| "bottleneck_issues avg (i # issues) =
     (case duration_days i of
        None \<Rightarrow> Inl AttributeError
      | Some d \<Rightarrow>
          (case bottleneck_issues avg issues of
             Inl e \<Rightarrow> Inl e
           | Inr rest \<Rightarrow> Inr (if avg < of_int d then i # rest else rest)))"

text \<open>Lines 107 to 112: the two nested counting loops.\<close>

fun bottleneck_counts :: "issue list \<Rightarrow> (string \<times> nat) list \<Rightarrow> (string \<times> nat) list" where
  "bottleneck_counts [] bc = bc"
| "bottleneck_counts (i # issues) bc = bottleneck_counts issues (count_values (labels i) bc)"

text \<open>The result is what \<^verbatim>\<open>plt.bar\<close> receives: the labels and their counts, as sorted.\<close>

definition bottleneck_analysis ::
  "analyzer_two \<Rightarrow> issue list \<Rightarrow> py_error + (string list \<times> nat list)" where
  "bottleneck_analysis self issues =
     (case avg_duration issues of
        Inl e \<Rightarrow> Inl e
      | Inr avg \<Rightarrow>
          (case bottleneck_issues avg issues of
             Inl e \<Rightarrow> Inl e
           | Inr bs \<Rightarrow> unzip_items (sorted_reverse snd (bottleneck_counts bs []))))"

subsection \<open>\<^verbatim>\<open>run\<close>\<close>

text \<open>
  \<open>run\<close> takes the sequence the loader returned. It yields the sequence as the duration pass
  left it, and either the three charts or the first exception, which ends the run.
\<close>

record charts =
  lifecycle_chart :: "string list \<times> rat list"
  trend_chart :: "(string \<times> nat) list \<times> (string \<times> nat) list"
  bottleneck_chart :: "string list \<times> nat list"

definition run :: "analyzer_two \<Rightarrow> issue list \<Rightarrow> issue list \<times> (py_error + charts)" where
  "run self loaded =
     (let issues = calculate_issue_durations self loaded in
      (issues,
       case issue_lifecycle_visualization self issues of
         Inl e \<Rightarrow> Inl e
       | Inr c1 \<Rightarrow>
           (case seasonal_trends_analysis self issues of
              Inl e \<Rightarrow> Inl e
            | Inr c2 \<Rightarrow>
                (case bottleneck_analysis self issues of
                   Inl e \<Rightarrow> Inl e
                 | Inr c3 \<Rightarrow>
                     Inr \<lparr>lifecycle_chart = c1, trend_chart = c2, bottleneck_chart = c3\<rparr>))))"

section \<open>Example inputs\<close>

text \<open>
  \<open>datetime_ymd y m d\<close> is \<^verbatim>\<open>datetime(y, m, d)\<close>, midnight of the day. \<open>loaded_issue\<close> is
  an issue as the loader delivers it, without \<^verbatim>\<open>duration_days\<close>. \<open>issue_open_for n d ls\<close> was
  created on 1 January 2024 and updated \<open>d\<close> days later.
\<close>

definition datetime_ymd :: "nat \<Rightarrow> nat \<Rightarrow> nat \<Rightarrow> datetime" where
  "datetime_ymd y m d =
     \<lparr>year = y, month = m, day = d, hour = 0, minute = 0, second = 0, microsecond = 0\<rparr>"

definition loaded_issue ::
  "int \<Rightarrow> datetime option \<Rightarrow> datetime option \<Rightarrow> string list \<Rightarrow> issue" where
  "loaded_issue n c u ls =
     \<lparr>issue_id = n, created_date = c, updated_date = u, labels = ls, duration_days = None\<rparr>"

definition issue_open_for :: "int \<Rightarrow> nat \<Rightarrow> string list \<Rightarrow> issue" where
  "issue_open_for n d ls =
     loaded_issue n (Some (datetime_ymd 2024 1 1)) (Some (datetime_ymd 2024 1 (1 + d))) ls"

definition undated_issue :: "int \<Rightarrow> string list \<Rightarrow> issue" where
  "undated_issue n ls = loaded_issue n None None ls"

definition no_filter :: analyzer_two where
  "no_filter = \<lparr>label_filter = None\<rparr>"

text \<open>
  An issue updated five and a half days before it was created, followed by an issue
  without timestamps.
\<close>

definition backdated_issues :: "issue list" where
  "backdated_issues =
     [loaded_issue 1
        (Some \<lparr>year = 2024, month = 1, day = 10, hour = 12, minute = 0, second = 0,
               microsecond = 0\<rparr>)
        (Some (datetime_ymd 2024 1 5)) [''bug''],
      undated_issue 2 [''ui'']]"

text \<open>
  Two issues without bottleneck, then two bottleneck issues whose labels tie: \<open>ui\<close> and
  \<open>api\<close> are counted once each, \<open>bug\<close> twice.
\<close>

definition tied_issues :: "issue list" where
  "tied_issues =
     [issue_open_for 1 0 [''docs''], issue_open_for 2 0 [''docs''],
      issue_open_for 3 10 [''ui'', ''bug''], issue_open_for 4 10 [''api'', ''bug'']]"

text \<open>An issue that was open for four days and an issue without timestamps.\<close>

definition mixed_issues :: "issue list" where
  "mixed_issues = [issue_open_for 1 4 [''bug''], undated_issue 2 [''bug'']]"

definition undated_issues :: "issue list" where
  "undated_issues = [undated_issue 1 [''bug'']]"

definition single_issue :: "issue list" where
  "single_issue = [issue_open_for 1 4 [''bug'']]"

text \<open>An issue with a creation timestamp and no update timestamp.\<close>

definition half_dated_issues :: "issue list" where
  "half_dated_issues = [loaded_issue 1 (Some (datetime_ymd 2024 1 15)) None [''bug'']]"

text \<open>The two records of the scenarios A and B of the specification.\<close>

definition scenario_issues :: "issue list" where
  "scenario_issues = [issue_open_for 1 4 [''bug''], issue_open_for 2 10 [''bug'', ''ui'']]"

definition ui_filter :: analyzer_two where
  "ui_filter = \<lparr>label_filter = Some ''ui''\<rparr>"

text \<open>
  The distinct elements of a list in the order of their first occurrence: the order in
  which a \<^verbatim>\<open>dict\<close> meets its keys.
\<close>

abbreviation encounter_order :: "'a list \<Rightarrow> 'a list" where
  "encounter_order xs \<equiv> rev (remdups (rev xs))"

section \<open>The duration pass\<close>

lemma days_new_timedelta:
  "days (new_timedelta d s us) = ((d * 86400 + s) * 1000000 + us) div 86400000000"
proof -
  have "((d * 86400 + s) * 1000000 + us) div (1000000 * 86400) =
        (((d * 86400 + s) * 1000000 + us) div 1000000) div 86400"
    by (simp add: div_mult2_eq)
  also have "((d * 86400 + s) * 1000000 + us) div 1000000 = (d * 86400 + s) + us div 1000000"
    by simp
  also have "((d * 86400 + s) + us div 1000000) div 86400 = d + (s + us div 1000000) div 86400"
    by (simp add: add.assoc)
  finally show ?thesis by (simp add: new_timedelta_def Let_def)
qed

lemma days_datetime_sub:
  "days (datetime_sub u c) = (total_microseconds u - total_microseconds c) div 86400000000"
  unfolding datetime_sub_def days_new_timedelta total_microseconds_def
  by (simp add: algebra_simps)

lemma floor_whole_days: "\<lfloor>(of_int a :: rat) / 86400000000\<rfloor> = a div 86400000000"
  using floor_divide_of_int_eq[of a 86400000000, where ?'a = rat] by simp

lemma calculate_issue_durations_map:
  "calculate_issue_durations self issues = map set_duration issues"
  by (induction issues) simp_all

lemma set_duration_both:
  "created_date i = Some c \<Longrightarrow> updated_date i = Some u \<Longrightarrow>
   set_duration i = i\<lparr>duration_days := Some (days (datetime_sub u c))\<rparr>"
  by (simp add: set_duration_def)

lemma set_duration_missing:
  "created_date i = None \<or> updated_date i = None \<Longrightarrow> set_duration i = i"
  by (auto simp: set_duration_def split: option.splits)

lemma set_duration_frame:
  "issue_id (set_duration i) = issue_id i"
  "created_date (set_duration i) = created_date i"
  "updated_date (set_duration i) = updated_date i"
  "labels (set_duration i) = labels i"
  by (simp_all add: set_duration_def split: option.splits)

lemma set_duration_idem: "set_duration (set_duration i) = set_duration i"
  by (simp add: set_duration_def split: option.splits)

lemma calculate_issue_durations_idem:
  "calculate_issue_durations self (calculate_issue_durations self' issues) =
   calculate_issue_durations self' issues"
  by (simp add: calculate_issue_durations_map set_duration_idem)

text \<open>
  Claim C5. After \<open>calculate_issue_durations\<close>, a record with both timestamps has
  \<open>duration_days\<close> equal to the floor of (updated - created) in days, where the difference
  is signed: it is negative when the update precedes the creation. A record that misses a
  timestamp keeps its \<open>duration_days\<close> as it was, so it stays absent when it was absent.
  The pass raises nothing: it returns the whole sequence.
\<close>

theorem calculate_issue_durations_floor_days:
  assumes "k < length issues"
  shows "(\<forall>c u. created_date (issues ! k) = Some c \<and> updated_date (issues ! k) = Some u \<longrightarrow>
            duration_days (calculate_issue_durations self issues ! k) =
              Some \<lfloor>rat_of_int (total_microseconds u - total_microseconds c) / 86400000000\<rfloor>
            \<and> (total_microseconds u < total_microseconds c \<longrightarrow>
                 (\<exists>d < 0. duration_days (calculate_issue_durations self issues ! k) = Some d)))
       \<and> (created_date (issues ! k) = None \<or> updated_date (issues ! k) = None \<longrightarrow>
            duration_days (calculate_issue_durations self issues ! k) = duration_days (issues ! k))
       \<and> length (calculate_issue_durations self issues) = length issues"
proof (intro conjI allI impI)
  fix c u
  assume cu: "created_date (issues ! k) = Some c \<and> updated_date (issues ! k) = Some u"
  then have d: "duration_days (calculate_issue_durations self issues ! k) =
      Some ((total_microseconds u - total_microseconds c) div 86400000000)"
    using assms by (simp add: calculate_issue_durations_map set_duration_both days_datetime_sub)
  then show "duration_days (calculate_issue_durations self issues ! k) =
              Some \<lfloor>rat_of_int (total_microseconds u - total_microseconds c) / 86400000000\<rfloor>"
    by (simp only: floor_whole_days)
  assume "total_microseconds u < total_microseconds c"
  then have "(total_microseconds u - total_microseconds c) div 86400000000 < 0"
    by (simp add: div_neg_pos_less0)
  with d show "\<exists>d < 0. duration_days (calculate_issue_durations self issues ! k) = Some d"
    by simp
next
  assume "created_date (issues ! k) = None \<or> updated_date (issues ! k) = None"
  then show "duration_days (calculate_issue_durations self issues ! k) = duration_days (issues ! k)"
    using assms by (simp add: calculate_issue_durations_map set_duration_missing)
next
  show "length (calculate_issue_durations self issues) = length issues"
    by (simp add: calculate_issue_durations_map)
qed

text \<open>
  The first example record was updated five and a half days before its creation: its
  duration is -6, the floor, not -5. The second has no timestamps and gets no duration.
\<close>

theorem calculate_issue_durations_floor_days_witness:
  "(0::nat) < length backdated_issues
   \<and> duration_days (calculate_issue_durations no_filter backdated_issues ! 0) = Some (- 6)
   \<and> duration_days (calculate_issue_durations no_filter backdated_issues ! 1) = None"
  using calculate_issue_durations_floor_days
          [unfolded floor_whole_days, of 0 backdated_issues no_filter]
        calculate_issue_durations_floor_days
          [unfolded floor_whole_days, of 1 backdated_issues no_filter]
  by (simp add: backdated_issues_def loaded_issue_def undated_issue_def total_microseconds_def
        toordinal_def datetime_ymd_def days_before_year_def days_before_month_def
        days_in_month_def is_leap_def seconds_of_day_def)

text \<open>
  Claim C10. \<open>calculate_issue_durations\<close> writes \<open>duration_days\<close> only: the identifiers, the
  creation and update timestamps and the labels of the sequence are the same, record by
  record and in the same order, and so is the length; with \<open>duration_days\<close> erased, the
  sequence after the pass is the sequence before it.
\<close>

theorem calculate_issue_durations_frame:
  "map issue_id (calculate_issue_durations self issues) = map issue_id issues
   \<and> map created_date (calculate_issue_durations self issues) = map created_date issues
   \<and> map updated_date (calculate_issue_durations self issues) = map updated_date issues
   \<and> map labels (calculate_issue_durations self issues) = map labels issues
   \<and> length (calculate_issue_durations self issues) = length issues
   \<and> map (\<lambda>i. i\<lparr>duration_days := None\<rparr>) (calculate_issue_durations self issues) =
       map (\<lambda>i. i\<lparr>duration_days := None\<rparr>) issues"
  by (simp add: calculate_issue_durations_map set_duration_frame comp_def set_duration_def
        split: option.splits)

section \<open>Dictionaries\<close>

lemma keys_dict_incr:
  "map fst (dict_incr k d) = (if k \<in> fst ` set d then map fst d else map fst d @ [k])"
  by (induction k d rule: dict_incr.induct) auto

lemma keyset_dict_incr: "fst ` set (dict_incr k d) = insert k (fst ` set d)"
  by (induction k d rule: dict_incr.induct) auto

lemma map_of_dict_incr:
  "map_of (dict_incr k d) =
   (map_of d)(k \<mapsto> (case map_of d k of None \<Rightarrow> 1 | Some n \<Rightarrow> n + 1))"
  by (induction k d rule: dict_incr.induct) (auto simp: fun_eq_iff)

lemma remdups_snoc: "remdups (ys @ [x]) = filter (\<lambda>y. y \<noteq> x) (remdups ys) @ [x]"
  by (induction ys) auto

lemma encounter_order_Cons:
  "encounter_order (x # xs) = x # filter (\<lambda>y. y \<noteq> x) (encounter_order xs)"
  by (simp add: remdups_snoc rev_filter)

lemma encounter_order_filter:
  "encounter_order (filter P xs) = filter P (encounter_order xs)"
  by (simp add: rev_filter remdups_filter)

lemma keys_count_values:
  "map fst (count_values xs d) =
   map fst d @ encounter_order (filter (\<lambda>x. x \<notin> fst ` set d) xs)"
proof (induction xs arbitrary: d)
  case Nil
  then show ?case by simp
next
  case (Cons x xs)
  have flt: "filter (\<lambda>y. y \<notin> fst ` set (dict_incr x d)) xs =
          filter (\<lambda>y. y \<noteq> x) (filter (\<lambda>y. y \<notin> fst ` set d) xs)"
    by (auto simp: keyset_dict_incr intro: filter_cong)
  show ?case
  proof (cases "x \<in> fst ` set d")
    case True
    then have "filter (\<lambda>y. y \<notin> fst ` set (dict_incr x d)) xs = filter (\<lambda>y. y \<notin> fst ` set d) xs"
      by (simp add: keyset_dict_incr insert_absorb)
    with True show ?thesis using Cons.IH [of "dict_incr x d"]
      by (simp add: keys_dict_incr del: set_map) 
  next
    case False
    have "map fst (count_values (x # xs) d) = map fst (dict_incr x d) @
        encounter_order (filter (\<lambda>y. y \<notin> fst ` set (dict_incr x d)) xs)"
      using Cons.IH [of "dict_incr x d"] by simp
    also have "\<dots> = map fst d @ x # filter (\<lambda>y. y \<noteq> x) (encounter_order (filter (\<lambda>y. y \<notin> fst ` set d) xs))"
      using False by (simp only: flt encounter_order_filter keys_dict_incr) simp
    also have "\<dots> = map fst d @ encounter_order (filter (\<lambda>x. x \<notin> fst ` set d) (x # xs))"
    proof -
      have "filter (\<lambda>x. x \<notin> fst ` set d) (x # xs) = x # filter (\<lambda>x. x \<notin> fst ` set d) xs"
        using False by simp
      then show ?thesis by (simp only: encounter_order_Cons)
    qed
    finally show ?thesis .
  qed
qed

lemma map_of_count_values:
  "map_of (count_values xs d) l =
   (case map_of d l of
      None \<Rightarrow> if count_list xs l = 0 then None else Some (count_list xs l)
    | Some n \<Rightarrow> Some (n + count_list xs l))"
  by (induction xs arbitrary: d) (auto simp: map_of_dict_incr split: option.splits)

lemma distinct_keys_dict_incr:
  "distinct (map fst d) \<Longrightarrow> distinct (map fst (dict_incr k d))"
  by (simp add: keys_dict_incr)

lemma distinct_keys_count_values:
  "distinct (map fst d) \<Longrightarrow> distinct (map fst (count_values xs d))"
  by (induction xs arbitrary: d) (simp_all add: distinct_keys_dict_incr)

lemma count_values_append:
  "count_values (xs @ ys) d = count_values ys (count_values xs d)"
  by (induction xs arbitrary: d) simp_all

lemma bottleneck_counts_concat:
  "bottleneck_counts bs d = count_values (concat (map labels bs)) d"
  by (induction bs arbitrary: d) (simp_all add: count_values_append)

lemma count_list_concat:
  "count_list (concat xss) l = sum_list (map (\<lambda>xs. count_list xs l) xss)"
  by (induction xss) simp_all

lemma count_list_distinct:
  "distinct xs \<Longrightarrow> count_list xs l = (if l \<in> set xs then 1 else 0)"
  by (induction xs) auto

lemma sum_indicator_filter:
  "sum_list (map (\<lambda>i. if P i then 1 else 0) bs) = length (filter P bs)"
  by (induction bs) simp_all

lemma keys_dict_append:
  "map fst (dict_append k v d) = (if k \<in> fst ` set d then map fst d else map fst d @ [k])"
  by (induction k v d rule: dict_append.induct) auto

lemma map_of_dict_append:
  "map_of (dict_append k v d) =
   (map_of d)(k \<mapsto> (case map_of d k of None \<Rightarrow> [v] | Some vs \<Rightarrow> vs @ [v]))"
  by (induction k v d rule: dict_append.induct) (auto simp: fun_eq_iff)

lemma lengths_dict_append:
  "map (\<lambda>(k, vs). (k, length vs)) (dict_append k v d) =
   dict_incr k (map (\<lambda>(k, vs). (k, length vs)) d)"
  by (induction k v d rule: dict_append.induct) auto

lemma entries_count_values:
  "(k, n) \<in> set (count_values xs []) \<longleftrightarrow> k \<in> set xs \<and> n = count_list xs k"
proof -
  have "distinct (map fst (count_values xs []))"
    by (simp add: distinct_keys_count_values)
  then have "(k, n) \<in> set (count_values xs []) \<longleftrightarrow> map_of (count_values xs []) k = Some n"
    by simp
  also have "\<dots> \<longleftrightarrow> k \<in> set xs \<and> n = count_list xs k"
    by (auto simp: map_of_count_values count_list_0_iff)
  finally show ?thesis .
qed

lemma entries_by_key:
  "\<forall>p \<in> set L. snd p = g (fst p) \<Longrightarrow> L = map (\<lambda>k. (k, g k)) (map fst L)"
  by (induction L) auto

section \<open>Sorting\<close>

lemma sorted_reverse_descending: "sorted_wrt (\<lambda>a b. f b \<le> f a) (sorted_reverse f xs)"
proof -
  have "sorted (map f (sort_key f (rev xs)))" by simp
  then have "sorted_wrt (\<lambda>a b. f a \<le> f b) (sort_key f (rev xs))"
    by (simp add: sorted_map)
  then show ?thesis by (simp add: sorted_reverse_def sorted_wrt_rev)
qed

lemma sorted_reverse_stable:
  "filter (\<lambda>y. f y = k) (sorted_reverse f xs) = filter (\<lambda>y. f y = k) xs"
  by (simp add: sorted_reverse_def rev_filter [symmetric] sort_key_stable)

lemma set_sorted_reverse: "set (sorted_reverse f xs) = set xs"
  by (simp add: sorted_reverse_def)

lemma sorted_reverse_Nil: "sorted_reverse f xs = [] \<longleftrightarrow> xs = []"
  by (metis set_sorted_reverse set_empty)

lemma distinct_keys_sorted_reverse:
  "distinct (map fst xs) \<Longrightarrow> distinct (map fst (sorted_reverse f xs))"
  by (simp add: distinct_map sorted_reverse_def)

lemma map_of_sorted_reverse:
  "distinct (map fst xs) \<Longrightarrow> map_of (sorted_reverse f xs) = map_of xs"
  using map_of_inject_set [of "sorted_reverse f xs" xs]
  by (simp add: distinct_keys_sorted_reverse set_sorted_reverse)

section \<open>The example inputs after the duration pass\<close>

lemma duration_issue_open_for:
  "set_duration (issue_open_for n d ls) = (issue_open_for n d ls)\<lparr>duration_days := Some (int d)\<rparr>"
  by (simp add: set_duration_def issue_open_for_def loaded_issue_def days_datetime_sub
      total_microseconds_def toordinal_def datetime_ymd_def days_before_year_def
      days_before_month_def seconds_of_day_def)

lemma set_duration_undated: "set_duration (undated_issue n ls) = undated_issue n ls"
  by (simp add: set_duration_def undated_issue_def loaded_issue_def)

lemma labels_issue_open_for: "labels (issue_open_for n d ls) = ls"
  by (simp add: issue_open_for_def loaded_issue_def)

section \<open>The bottleneck pass\<close>

lemma unzip_items_Inr:
  "unzip_items items = Inr (ls, cs) \<longleftrightarrow> items \<noteq> [] \<and> ls = map fst items \<and> cs = map snd items"
  by (auto simp: unzip_items_def)

lemma avg_duration_Inr:
  "avg_duration issues = Inr avg \<longleftrightarrow>
   issues \<noteq> [] \<and>
   avg = rat_of_int (sum_list (present_durations issues)) / rat_of_int (int (length issues))"
  by (auto simp: avg_duration_def py_truediv_def)

lemma avg_duration_Inl:
  "avg_duration issues = Inl e \<longleftrightarrow> issues = [] \<and> e = ZeroDivisionError"
  by (auto simp: avg_duration_def py_truediv_def)

lemma bottleneck_issues_eq:
  "bottleneck_issues avg issues =
   (if \<forall>i \<in> set issues. duration_days i \<noteq> None
    then Inr (filter (\<lambda>i. \<exists>d. duration_days i = Some d \<and> avg < rat_of_int d) issues)
    else Inl AttributeError)"
  by (induction issues) (auto split: option.splits)

lemma bottleneck_issues_Inr:
  "bottleneck_issues avg issues = Inr bs \<longleftrightarrow>
   (\<forall>i \<in> set issues. duration_days i \<noteq> None) \<and>
   bs = filter (\<lambda>i. \<exists>d. duration_days i = Some d \<and> avg < rat_of_int d) issues"
  by (auto simp: bottleneck_issues_eq)

lemma bottleneck_issues_Inl:
  "bottleneck_issues avg issues = Inl e \<longleftrightarrow>
   e = AttributeError \<and> (\<exists>i \<in> set issues. duration_days i = None)"
  by (auto simp: bottleneck_issues_eq)

lemma present_durations_all:
  "\<forall>i \<in> set issues. duration_days i \<noteq> None \<Longrightarrow>
   present_durations issues = map (\<lambda>i. the (duration_days i)) issues"
  by (induction issues) auto

text \<open>
  When every record has a duration, the divisor \<^verbatim>\<open>len(issues)\<close> is the number of
  durations, and the mean is the mean of the present durations.
\<close>

lemma avg_duration_all_present:
  assumes "issues \<noteq> []" "\<forall>i \<in> set issues. duration_days i \<noteq> None"
  shows "avg_duration issues =
         Inr (rat_of_int (sum_list (present_durations issues)) /
              rat_of_int (int (length (present_durations issues))))"
  using assms by (simp add: avg_duration_Inr present_durations_all)

lemma map_fst_filter_snd:
  "\<forall>p \<in> set items. snd p = g (fst p) \<Longrightarrow>
   map fst (filter (\<lambda>p. snd p = c) items) = filter (\<lambda>l. g l = c) (map fst items)"
  by (induction items) auto

lemma bottleneck_counts_entry:
  "(l, n) \<in> set (bottleneck_counts bs []) \<longleftrightarrow>
   n = sum_list (map (\<lambda>i. count_list (labels i) l) bs) \<and> (\<exists>i \<in> set bs. l \<in> set (labels i))"
proof -
  let ?d = "bottleneck_counts bs []"
  have dist: "distinct (map fst ?d)"
    by (simp add: bottleneck_counts_concat distinct_keys_count_values)
  have "(l, n) \<in> set ?d \<longleftrightarrow> map_of ?d l = Some n"
    using dist by simp
  also have "\<dots> \<longleftrightarrow> count_list (concat (map labels bs)) l \<noteq> 0 \<and> n = count_list (concat (map labels bs)) l"
    by (auto simp: bottleneck_counts_concat map_of_count_values)
  also have "\<dots> \<longleftrightarrow> n = sum_list (map (\<lambda>i. count_list (labels i) l) bs) \<and> (\<exists>i \<in> set bs. l \<in> set (labels i))"
    by (auto simp: count_list_concat comp_def count_list_0_iff)
  finally show ?thesis .
qed

text \<open>
  Claim C7. Whenever \<open>bottleneck_analysis\<close> hands a chart to the plot: every record has a
  duration and \<open>avg\<close> is the mean of these durations; the bottleneck subset is the
  sub-sequence of exactly the records whose
  \<open>duration_days\<close> is strictly greater than \<open>avg\<close>; the labels of the chart are distinct and
  are the labels of the bottleneck records; the count of a label is the number of its
  occurrences in the label lists of the bottleneck records, one per record when label lists
  have no repetition; the counts are in descending order; and labels with the same count
  stand in the order in which the counting loops first met them.
\<close>

theorem bottleneck_analysis_output:
  assumes "bottleneck_analysis self issues = Inr (ls, cs)"
  shows "\<exists>avg bs.
      avg_duration issues = Inr avg
    \<and> (\<forall>i \<in> set issues. duration_days i \<noteq> None)
    \<and> avg = rat_of_int (sum_list (present_durations issues)) /
              rat_of_int (int (length (present_durations issues)))
    \<and> bottleneck_issues avg issues = Inr bs
    \<and> bs = filter (\<lambda>i. \<exists>d. duration_days i = Some d \<and> avg < rat_of_int d) issues
    \<and> (\<forall>i \<in> set issues. i \<in> set bs \<longleftrightarrow> (\<exists>d. duration_days i = Some d \<and> avg < rat_of_int d))
    \<and> length ls = length cs \<and> distinct ls
    \<and> set ls = (\<Union>i \<in> set bs. set (labels i))
    \<and> (\<forall>l \<in> set ls.
          map_of (zip ls cs) l = Some (sum_list (map (\<lambda>i. count_list (labels i) l) bs)))
    \<and> ((\<forall>i \<in> set bs. distinct (labels i)) \<longrightarrow>
         (\<forall>l \<in> set ls.
            map_of (zip ls cs) l = Some (length (filter (\<lambda>i. l \<in> set (labels i)) bs))))
    \<and> sorted_wrt (\<lambda>a b. b \<le> a) cs
    \<and> (\<forall>c. map fst (filter (\<lambda>p. snd p = c) (zip ls cs)) =
             filter (\<lambda>l. sum_list (map (\<lambda>i. count_list (labels i) l) bs) = c)
               (encounter_order (concat (map labels bs))))"
proof -
  from assms obtain avg where avg: "avg_duration issues = Inr avg"
    by (auto simp: bottleneck_analysis_def split: sum.splits)
  from assms avg obtain bs where bs: "bottleneck_issues avg issues = Inr bs"
    by (auto simp: bottleneck_analysis_def split: sum.splits)
  let ?items = "bottleneck_counts bs []"
  let ?out = "sorted_reverse snd ?items"
  let ?cnt = "\<lambda>l. sum_list (map (\<lambda>i. count_list (labels i) l) bs)"
  from assms avg bs have out: "ls = map fst ?out" "cs = map snd ?out"
    by (simp_all add: bottleneck_analysis_def unzip_items_Inr)
  then have zip: "zip ls cs = ?out" by (simp add: zip_map_fst_snd)
  have sub: "bs = filter (\<lambda>i. \<exists>d. duration_days i = Some d \<and> avg < rat_of_int d) issues"
    using bs by (simp add: bottleneck_issues_Inr)
  have dist_items: "distinct (map fst ?items)"
    by (simp add: bottleneck_counts_concat distinct_keys_count_values)
  then have dist: "distinct ls"
    unfolding out by (rule distinct_keys_sorted_reverse)
  have "set (map fst ?items) = (\<Union>i \<in> set bs. set (labels i))"
    by (simp only: bottleneck_counts_concat keys_count_values) simp
  then have keys: "set ls = (\<Union>i \<in> set bs. set (labels i))"
    unfolding out by (simp add: set_sorted_reverse)
  have entry: "\<forall>p \<in> set ?items. snd p = ?cnt (fst p)"
    using bottleneck_counts_entry [of _ _ bs] by (metis prod.collapse)
  have lookup: "\<forall>l \<in> set ls. map_of (zip ls cs) l = Some (?cnt l)"
  proof
    fix l assume "l \<in> set ls"
    then obtain n where "(l, n) \<in> set ?items"
      unfolding out by (auto simp: set_sorted_reverse)
    then have "(l, ?cnt l) \<in> set ?out"
      by (simp add: set_sorted_reverse bottleneck_counts_entry)
    then show "map_of (zip ls cs) l = Some (?cnt l)"
      using dist by (simp add: zip out [symmetric])
  qed
  have lookup_distinct: "(\<forall>i \<in> set bs. distinct (labels i)) \<longrightarrow>
         (\<forall>l \<in> set ls.
            map_of (zip ls cs) l = Some (length (filter (\<lambda>i. l \<in> set (labels i)) bs)))"
  proof (intro impI ballI)
    fix l assume d: "\<forall>i \<in> set bs. distinct (labels i)" and l: "l \<in> set ls"
    have "map (\<lambda>i. count_list (labels i) l) bs = map (\<lambda>i. if l \<in> set (labels i) then 1 else 0) bs"
      using d by (simp add: count_list_distinct)
    then have "?cnt l = length (filter (\<lambda>i. l \<in> set (labels i)) bs)"
      by (simp only: sum_indicator_filter)
    with lookup l show "map_of (zip ls cs) l = Some (length (filter (\<lambda>i. l \<in> set (labels i)) bs))"
      by simp
  qed
  have desc: "sorted_wrt (\<lambda>a b. b \<le> a) cs"
    using sorted_reverse_descending [of snd ?items]
    unfolding out by (simp add: sorted_wrt_map)
  have stable: "\<forall>c. map fst (filter (\<lambda>p. snd p = c) (zip ls cs)) =
             filter (\<lambda>l. ?cnt l = c) (encounter_order (concat (map labels bs)))"
  proof
    fix c
    have "map fst (filter (\<lambda>p. snd p = c) (zip ls cs)) = map fst (filter (\<lambda>p. snd p = c) ?items)"
      by (simp only: zip sorted_reverse_stable)
    also have "\<dots> = filter (\<lambda>l. ?cnt l = c) (map fst ?items)"
      using entry by (rule map_fst_filter_snd)
    also have "map fst ?items = encounter_order (concat (map labels bs))"
      by (simp add: bottleneck_counts_concat keys_count_values)
    finally show "map fst (filter (\<lambda>p. snd p = c) (zip ls cs)) =
             filter (\<lambda>l. ?cnt l = c) (encounter_order (concat (map labels bs)))" .
  qed
  from sub have mem: "\<forall>i \<in> set issues. i \<in> set bs \<longleftrightarrow> (\<exists>d. duration_days i = Some d \<and> avg < rat_of_int d)"
    by auto
  have len: "length ls = length cs" by (simp add: out)
  have present: "\<forall>i \<in> set issues. duration_days i \<noteq> None"
    using bs by (simp add: bottleneck_issues_Inr)
  have "issues \<noteq> []"
    using avg by (simp add: avg_duration_Inr)
  then have mean: "avg = rat_of_int (sum_list (present_durations issues)) /
              rat_of_int (int (length (present_durations issues)))"
    using avg avg_duration_all_present [OF _ present] by simp
  show ?thesis
    apply (rule exI [of _ avg], rule exI [of _ bs])
    apply (intro conjI)
    apply (fact avg present mean bs sub mem len dist keys lookup lookup_distinct desc stable)+
    done
qed

lemma tied_durations:
  "calculate_issue_durations no_filter tied_issues =
     [(issue_open_for 1 0 [''docs''])\<lparr>duration_days := Some 0\<rparr>,
      (issue_open_for 2 0 [''docs''])\<lparr>duration_days := Some 0\<rparr>,
      (issue_open_for 3 10 [''ui'', ''bug''])\<lparr>duration_days := Some 10\<rparr>,
      (issue_open_for 4 10 [''api'', ''bug''])\<lparr>duration_days := Some 10\<rparr>]"
  by (simp add: tied_issues_def duration_issue_open_for)

lemma tied_avg: "avg_duration (calculate_issue_durations no_filter tied_issues) = Inr 5"
  by (simp add: tied_durations avg_duration_def py_truediv_def)

lemma tied_bs: "bottleneck_issues 5 (calculate_issue_durations no_filter tied_issues) =
   Inr [(issue_open_for 3 10 [''ui'', ''bug''])\<lparr>duration_days := Some 10\<rparr>,
      (issue_open_for 4 10 [''api'', ''bug''])\<lparr>duration_days := Some 10\<rparr>]"
  by (simp add: tied_durations)

lemma tied_counts: "bottleneck_counts [(issue_open_for 3 10 [''ui'', ''bug''])\<lparr>duration_days := Some 10\<rparr>,
      (issue_open_for 4 10 [''api'', ''bug''])\<lparr>duration_days := Some 10\<rparr>] [] =
   [(''ui'', 1), (''bug'', 2), (''api'', 1)]"
  by (simp add: labels_issue_open_for)

lemma tied_sorted: "sorted_reverse snd [(''ui'', 1::nat), (''bug'', 2), (''api'', 1)] =
   [(''bug'', 2), (''ui'', 1), (''api'', 1)]"
  by (simp add: sorted_reverse_def)

lemma tied_run: "bottleneck_analysis no_filter (calculate_issue_durations no_filter tied_issues) =
     Inr ([''bug'', ''ui'', ''api''], [2, 1, 1])"
  by (simp only: bottleneck_analysis_def tied_avg tied_bs tied_counts tied_sorted sum.case)
     (simp add: unzip_items_def)

text \<open>
  In the example the mean is 5; the two records open for ten days are the bottleneck subset;
  \<open>bug\<close> comes first with count 2, then \<open>ui\<close> before \<open>api\<close>, as first met.
\<close>

theorem bottleneck_analysis_output_witness:
  "bottleneck_analysis no_filter (calculate_issue_durations no_filter tied_issues) =
     Inr ([''bug'', ''ui'', ''api''], [2, 1, 1])
   \<and> (\<exists>avg bs.
        avg_duration (calculate_issue_durations no_filter tied_issues) = Inr avg
      \<and> bottleneck_issues avg (calculate_issue_durations no_filter tied_issues) = Inr bs
      \<and> set [''bug'', ''ui'', ''api''] = (\<Union>i \<in> set bs. set (labels i))
      \<and> sorted_wrt (\<lambda>a b. b \<le> a) [2, 1, 1 :: nat])"
proof -
  note h = tied_run
  from bottleneck_analysis_output [OF h] obtain avg bs where
    "avg_duration (calculate_issue_durations no_filter tied_issues) = Inr avg"
    "bottleneck_issues avg (calculate_issue_durations no_filter tied_issues) = Inr bs"
    "set [''bug'', ''ui'', ''api''] = (\<Union>i \<in> set bs. set (labels i))"
    "sorted_wrt (\<lambda>a b. b \<le> a) [2, 1, 1 :: nat]"
    by (elim exE conjE)
  with h show ?thesis by (intro conjI exI)
qed

lemma duration_days_undated: "duration_days (undated_issue n ls) = None"
  by (simp add: undated_issue_def loaded_issue_def)

lemma labels_undated: "labels (undated_issue n ls) = ls"
  by (simp add: undated_issue_def loaded_issue_def)

lemma mixed_durations:
  "calculate_issue_durations self mixed_issues =
     [(issue_open_for 1 4 [''bug''])\<lparr>duration_days := Some 4\<rparr>, undated_issue 2 [''bug'']]"
  by (simp add: mixed_issues_def duration_issue_open_for set_duration_undated)

text \<open>
  Claim C1 fails on the code. Line 103 sums \<open>duration_days\<close> over the records that have
  it and divides by \<^verbatim>\<open>len(issues)\<close>, the number of all records. For a record open for
  four days followed by a record without timestamps, the present durations are \<open>[4]\<close>, whose
  mean is 4, and the code computes 2: the record without a duration counts as a zero. The
  comprehension of line 105 then raises \<^verbatim>\<open>AttributeError\<close> on that record.
\<close>

theorem avg_duration_divides_by_all_records:
  "present_durations (calculate_issue_durations no_filter mixed_issues) = [4]
   \<and> avg_duration (calculate_issue_durations no_filter mixed_issues) = Inr 2
   \<and> bottleneck_analysis no_filter (calculate_issue_durations no_filter mixed_issues) =
       Inl AttributeError"
  by (simp add: mixed_durations duration_days_undated avg_duration_def py_truediv_def
        bottleneck_analysis_def)

text \<open>
  Claim C3 fails on the code. With one record and no duration at all, line 103 divides the
  empty sum by \<^verbatim>\<open>len(issues) = 1\<close>: the mean is computed, and it is zero. The pass then
  fails in line 105 with \<^verbatim>\<open>AttributeError\<close>. Only for the empty sequence does the division
  itself fail, with \<^verbatim>\<open>ZeroDivisionError\<close>.
\<close>

theorem avg_duration_zero_without_durations:
  "present_durations (calculate_issue_durations no_filter undated_issues) = []
   \<and> avg_duration (calculate_issue_durations no_filter undated_issues) = Inr 0
   \<and> bottleneck_analysis no_filter (calculate_issue_durations no_filter undated_issues) =
       Inl AttributeError
   \<and> bottleneck_analysis no_filter (calculate_issue_durations no_filter []) =
       Inl ZeroDivisionError"
  by (simp add: undated_issues_def set_duration_undated duration_days_undated avg_duration_def
        py_truediv_def bottleneck_analysis_def)

text \<open>
  In general: when no record has a duration, the pass never reaches the plot. It ends with
  \<^verbatim>\<open>ZeroDivisionError\<close> for the empty sequence and with \<^verbatim>\<open>AttributeError\<close>, after a
  mean of zero, for any other.
\<close>

lemma bottleneck_analysis_without_durations:
  assumes "\<forall>i \<in> set issues. duration_days i = None"
  shows "bottleneck_analysis self issues =
           Inl (if issues = [] then ZeroDivisionError else AttributeError)"
    and "issues \<noteq> [] \<Longrightarrow> avg_duration issues = Inr 0"
proof -
  have none: "present_durations issues = []"
    using assms by (induction issues) simp_all
  show "issues \<noteq> [] \<Longrightarrow> avg_duration issues = Inr 0"
    by (simp add: avg_duration_Inr none)
  show "bottleneck_analysis self issues =
           Inl (if issues = [] then ZeroDivisionError else AttributeError)"
  proof (cases "issues = []")
    case True
    then show ?thesis by (simp add: bottleneck_analysis_def avg_duration_def py_truediv_def)
  next
    case False
    then have "\<exists>i \<in> set issues. duration_days i = None"
      using assms by (cases issues) auto
    then have "bottleneck_issues 0 issues = Inl AttributeError"
      by (simp add: bottleneck_issues_Inl)
    then show ?thesis
      using False by (simp add: bottleneck_analysis_def avg_duration_def py_truediv_def none)
  qed
qed

section \<open>The label pass\<close>

text \<open>
  Claim C2 fails on the code. Line 57 reads \<^verbatim>\<open>issue.duration_days\<close> of every record that
  has a label, without the \<^verbatim>\<open>hasattr\<close> test of line 103: a labelled record without
  timestamps is not skipped, the pass raises \<^verbatim>\<open>AttributeError\<close>.
\<close>

theorem lifecycle_raises_on_missing_duration:
  "issue_lifecycle_visualization no_filter (calculate_issue_durations no_filter mixed_issues) =
     Inl AttributeError"
  by (simp add: mixed_durations duration_days_undated labels_undated labels_issue_open_for
        issue_lifecycle_visualization_def filter_by_label_def no_filter_def)

text \<open>
  What the label pass computes otherwise. When every filtered record that has a label has
  a duration, the labels of the chart are the labels of the filtered records in the order
  of their first occurrence, and the value of a label is the arithmetic mean of the
  durations of the filtered records that carry it, a record contributing its duration once
  for each occurrence of the label in its label list; with no label at all the unpacking
  raises \<^verbatim>\<open>ValueError\<close>. When some filtered record has a label and no duration, the pass
  raises \<^verbatim>\<open>AttributeError\<close>.
\<close>

lemma append_durations_None:
  "duration_days i = None \<Longrightarrow>
   append_durations i ls ld = (if ls = [] then Inr ld else Inl AttributeError)"
  by (cases ls) simp_all

lemma append_durations_Some:
  assumes "duration_days i = Some d"
  shows "\<exists>ld'. append_durations i ls ld = Inr ld'
     \<and> map (\<lambda>(k, vs). (k, length vs)) ld' = count_values ls (map (\<lambda>(k, vs). (k, length vs)) ld)
     \<and> (\<forall>l. map_of ld' l =
          (case map_of ld l of
             None \<Rightarrow> if count_list ls l = 0 then None else Some (replicate (count_list ls l) d)
           | Some vs \<Rightarrow> Some (vs @ replicate (count_list ls l) d)))"
  using assms
proof (induction ls arbitrary: ld)
  case Nil
  then show ?case by (auto split: option.splits)
next
  case (Cons a ls)
  from Cons.IH [OF Cons.prems, of "dict_append a d ld"] obtain ld' where
    r: "append_durations i ls (dict_append a d ld) = Inr ld'"
    and k: "map (\<lambda>(k, vs). (k, length vs)) ld' =
            count_values ls (map (\<lambda>(k, vs). (k, length vs)) (dict_append a d ld))"
    and m: "\<forall>l. map_of ld' l =
          (case map_of (dict_append a d ld) l of
             None \<Rightarrow> if count_list ls l = 0 then None else Some (replicate (count_list ls l) d)
           | Some vs \<Rightarrow> Some (vs @ replicate (count_list ls l) d))"
    by blast
  have "append_durations i (a # ls) ld = Inr ld'"
    using r Cons.prems by simp
  moreover have "map (\<lambda>(k, vs). (k, length vs)) ld' =
      count_values (a # ls) (map (\<lambda>(k, vs). (k, length vs)) ld)"
    using k by (simp add: lengths_dict_append)
  moreover have "\<forall>l. map_of ld' l =
          (case map_of ld l of
             None \<Rightarrow> if count_list (a # ls) l = 0 then None
                     else Some (replicate (count_list (a # ls) l) d)
           | Some vs \<Rightarrow> Some (vs @ replicate (count_list (a # ls) l) d))"
    using m by (auto simp: map_of_dict_append replicate_app_Cons_same split: option.splits)
  ultimately show ?case by blast
qed

lemma label_durations_present:
  assumes "\<forall>i \<in> set fs. labels i \<noteq> [] \<longrightarrow> duration_days i \<noteq> None"
  shows "\<exists>ld'. label_durations fs ld = Inr ld'
     \<and> map (\<lambda>(k, vs). (k, length vs)) ld' =
         count_values (concat (map labels fs)) (map (\<lambda>(k, vs). (k, length vs)) ld)
     \<and> (\<forall>l. map_of ld' l =
          (case map_of ld l of
             None \<Rightarrow>
               if count_list (concat (map labels fs)) l = 0 then None
               else Some (concat (map (\<lambda>i. case duration_days i of None \<Rightarrow> []
                            | Some d \<Rightarrow> replicate (count_list (labels i) l) d) fs))
           | Some vs \<Rightarrow>
               Some (vs @ concat (map (\<lambda>i. case duration_days i of None \<Rightarrow> []
                            | Some d \<Rightarrow> replicate (count_list (labels i) l) d) fs))))"
  using assms
proof (induction fs arbitrary: ld)
  case Nil
  then show ?case by (auto split: option.splits)
next
  case (Cons i fs)
  let ?D = "\<lambda>l fs. concat (map (\<lambda>i. case duration_days i of None \<Rightarrow> []
                            | Some d \<Rightarrow> replicate (count_list (labels i) l) d) fs)"
  let ?lens = "map (\<lambda>(k, vs). (k, length vs))"
  have rest: "\<forall>i \<in> set fs. labels i \<noteq> [] \<longrightarrow> duration_days i \<noteq> None"
    using Cons.prems by simp
  show ?case
  proof (cases "duration_days i")
    case None
    then have nolab: "labels i = []" using Cons.prems by auto
    from Cons.IH [OF rest, of ld] obtain ld' where
      "label_durations fs ld = Inr ld'"
      "?lens ld' = count_values (concat (map labels fs)) (?lens ld)"
      "\<forall>l. map_of ld' l =
          (case map_of ld l of
             None \<Rightarrow> if count_list (concat (map labels fs)) l = 0 then None else Some (?D l fs)
           | Some vs \<Rightarrow> Some (vs @ ?D l fs))"
      by blast
    then show ?thesis using None nolab by (auto split: option.splits)
  next
    case (Some d)
    from append_durations_Some [OF Some, of "labels i" ld] obtain ld1 where
      a: "append_durations i (labels i) ld = Inr ld1"
      and k1: "?lens ld1 = count_values (labels i) (?lens ld)"
      and m1: "\<forall>l. map_of ld1 l =
          (case map_of ld l of
             None \<Rightarrow> if count_list (labels i) l = 0 then None
                     else Some (replicate (count_list (labels i) l) d)
           | Some vs \<Rightarrow> Some (vs @ replicate (count_list (labels i) l) d))"
      by blast
    from Cons.IH [OF rest, of ld1] obtain ld' where
      r: "label_durations fs ld1 = Inr ld'"
      and k: "?lens ld' = count_values (concat (map labels fs)) (?lens ld1)"
      and m: "\<forall>l. map_of ld' l =
          (case map_of ld1 l of
             None \<Rightarrow> if count_list (concat (map labels fs)) l = 0 then None else Some (?D l fs)
           | Some vs \<Rightarrow> Some (vs @ ?D l fs))"
      by blast
    have "label_durations (i # fs) ld = Inr ld'"
      using a r by simp
    moreover have "?lens ld' = count_values (concat (map labels (i # fs))) (?lens ld)"
      using k k1 by (simp add: count_values_append)
    moreover have "\<forall>l. map_of ld' l =
          (case map_of ld l of
             None \<Rightarrow> if count_list (concat (map labels (i # fs))) l = 0 then None
                     else Some (?D l (i # fs))
           | Some vs \<Rightarrow> Some (vs @ ?D l (i # fs)))"
    proof
      fix l
      show "map_of ld' l =
          (case map_of ld l of
             None \<Rightarrow> if count_list (concat (map labels (i # fs))) l = 0 then None
                     else Some (?D l (i # fs))
           | Some vs \<Rightarrow> Some (vs @ ?D l (i # fs)))"
        using m [rule_format, of l] m1 [rule_format, of l] Some
        by (cases "map_of ld l"; cases "count_list (labels i) l = 0") simp_all
    qed
    ultimately show ?thesis by blast
  qed
qed

lemma label_durations_missing:
  assumes "\<exists>i \<in> set fs. labels i \<noteq> [] \<and> duration_days i = None"
  shows "label_durations fs ld = Inl AttributeError"
  using assms
proof (induction fs arbitrary: ld)
  case Nil
  then show ?case by simp
next
  case (Cons i fs)
  show ?case
  proof (cases "labels i \<noteq> [] \<and> duration_days i = None")
    case True
    then show ?thesis by (simp add: append_durations_None)
  next
    case False
    then have rest: "\<exists>i \<in> set fs. labels i \<noteq> [] \<and> duration_days i = None"
      using Cons.prems by auto
    from False obtain ld1 where "append_durations i (labels i) ld = Inr ld1"
      using append_durations_Some [of i _ "labels i" ld]
      by (cases "duration_days i") (auto simp: append_durations_None)
    then show ?thesis using Cons.IH [OF rest] by simp
  qed
qed

lemma avg_label_durations_map:
  "\<forall>p \<in> set ld. snd p \<noteq> [] \<Longrightarrow>
   avg_label_durations ld =
     Inr (map (\<lambda>p. (fst p, rat_of_int (sum_list (snd p)) / rat_of_int (int (length (snd p))))) ld)"
  by (induction ld) (auto simp: py_truediv_def)

lemma issue_lifecycle_visualization_means:
  assumes "\<forall>i \<in> set (filter_by_label self issues). labels i \<noteq> [] \<longrightarrow> duration_days i \<noteq> None"
  shows "issue_lifecycle_visualization self issues =
     (let fs = filter_by_label self issues;
          ks = encounter_order (concat (map labels fs));
          durations = (\<lambda>l. concat (map (\<lambda>i. case duration_days i of None \<Rightarrow> []
                            | Some d \<Rightarrow> replicate (count_list (labels i) l) d) fs))
      in if ks = [] then Inl ValueError
         else Inr (ks, map (\<lambda>l. rat_of_int (sum_list (durations l)) /
                                 rat_of_int (int (length (durations l)))) ks))"
proof -
  let ?fs = "filter_by_label self issues"
  let ?labs = "concat (map labels ?fs)"
  let ?D = "\<lambda>l. concat (map (\<lambda>i. case duration_days i of None \<Rightarrow> []
                            | Some d \<Rightarrow> replicate (count_list (labels i) l) d) ?fs)"
  let ?lens = "map (\<lambda>(k, vs). (k, length vs))"
  let ?mean = "\<lambda>ds. rat_of_int (sum_list ds) / rat_of_int (int (length ds))"
  from label_durations_present [OF assms, of "[]"] obtain ld where
    r: "label_durations ?fs [] = Inr ld"
    and k: "?lens ld = count_values ?labs []"
    and m: "\<forall>l. map_of ld l = (if count_list ?labs l = 0 then None else Some (?D l))"
    by auto
  have "map fst ld = map fst (?lens ld)"
    by (simp add: comp_def case_prod_unfold)
  then have keys: "map fst ld = encounter_order ?labs"
    by (simp only: k keys_count_values) simp
  then have dist: "distinct (map fst ld)"
    by simp
  have entries: "\<forall>p \<in> set ld. snd p = ?D (fst p)"
  proof
    fix p assume "p \<in> set ld"
    then have "map_of ld (fst p) = Some (snd p)"
      using dist by simp
    then show "snd p = ?D (fst p)"
      using m [rule_format, of "fst p"] by (simp split: if_splits)
  qed
  have nonempty: "\<forall>p \<in> set ld. snd p \<noteq> []"
  proof
    fix p assume "p \<in> set ld"
    then have "(fst p, length (snd p)) \<in> set (?lens ld)"
      by (force simp: case_prod_unfold)
    then have "fst p \<in> set ?labs \<and> length (snd p) = count_list ?labs (fst p)"
      by (simp only: k entries_count_values)
    then have "length (snd p) \<noteq> 0"
      by (simp add: count_list_0_iff)
    then show "snd p \<noteq> []" by simp
  qed
  have vals: "map (\<lambda>p. ?mean (snd p)) ld = map (\<lambda>l. ?mean (?D l)) (map fst ld)"
    using entries by (simp add: comp_def)
  have "issue_lifecycle_visualization self issues =
        unzip_items (map (\<lambda>p. (fst p, ?mean (snd p))) ld)"
    by (simp add: issue_lifecycle_visualization_def r avg_label_durations_map [OF nonempty])
  also have "\<dots> = (if map fst ld = [] then Inl ValueError
                    else Inr (map fst ld, map (\<lambda>l. ?mean (?D l)) (map fst ld)))"
    using vals by (simp add: unzip_items_def comp_def)
  finally show ?thesis
    by (simp only: keys Let_def)
qed

lemma issue_lifecycle_visualization_missing:
  assumes "\<exists>i \<in> set (filter_by_label self issues). labels i \<noteq> [] \<and> duration_days i = None"
  shows "issue_lifecycle_visualization self issues = Inl AttributeError"
  by (simp add: issue_lifecycle_visualization_def label_durations_missing [OF assms])

section \<open>Empty mappings\<close>

text \<open>
  Claim C4 fails on the code: with no record, the label pass does not return, it raises
  \<^verbatim>\<open>ValueError\<close>; so does the bottleneck pass for a single record, whose duration does
  not exceed the mean and whose bottleneck subset is empty.
\<close>

theorem empty_mapping_counterexample:
  "issue_lifecycle_visualization no_filter (calculate_issue_durations no_filter []) =
     Inl ValueError
   \<and> bottleneck_issues 4 (calculate_issue_durations no_filter single_issue) = Inr []
   \<and> bottleneck_analysis no_filter (calculate_issue_durations no_filter single_issue) =
     Inl ValueError"
  by (simp add: single_issue_def duration_issue_open_for avg_duration_def py_truediv_def
        bottleneck_analysis_def issue_lifecycle_visualization_def filter_by_label_def
        no_filter_def unzip_items_def sorted_reverse_def)

text \<open>
  Claim C4 as amended. No pass tests for an empty mapping. When the mapping of the label
  means is empty, or the bottleneck subset (and so the mapping of the counts) is empty, the
  unpacking \<^verbatim>\<open>zip(*items)\<close> raises \<^verbatim>\<open>ValueError\<close> to the caller before any plotting call;
  neither pass ever plots an empty chart.
\<close>

theorem empty_mapping_raises:
  "(label_durations (filter_by_label self issues) [] = Inr ld \<and> avg_label_durations ld = Inr []
      \<longrightarrow> issue_lifecycle_visualization self issues = Inl ValueError)
   \<and> (avg_duration issues = Inr avg \<and> bottleneck_issues avg issues = Inr bs
        \<and> (bs = [] \<or> bottleneck_counts bs [] = [])
      \<longrightarrow> bottleneck_analysis self issues = Inl ValueError)
   \<and> issue_lifecycle_visualization self issues \<noteq> Inr ([], [])
   \<and> bottleneck_analysis self issues \<noteq> Inr ([], [])"
  by (auto simp: issue_lifecycle_visualization_def bottleneck_analysis_def unzip_items_def
        sorted_reverse_def split: sum.splits)

lemma single_durations:
  "calculate_issue_durations self single_issue =
     [(issue_open_for 1 4 [''bug''])\<lparr>duration_days := Some 4\<rparr>]"
  by (simp add: single_issue_def duration_issue_open_for)

theorem empty_mapping_raises_witness:
  "label_durations (filter_by_label no_filter []) [] = Inr []
   \<and> avg_label_durations [] = Inr []
   \<and> issue_lifecycle_visualization no_filter [] = Inl ValueError
   \<and> avg_duration (calculate_issue_durations no_filter single_issue) = Inr 4
   \<and> bottleneck_issues 4 (calculate_issue_durations no_filter single_issue) = Inr []
   \<and> bottleneck_analysis no_filter (calculate_issue_durations no_filter single_issue) =
       Inl ValueError"
  using empty_mapping_raises [where self = no_filter and issues = "[]" and ld = "[]"]
        empty_mapping_raises [where self = no_filter and avg = 4 and bs = "[]"
          and issues = "calculate_issue_durations no_filter single_issue"]
  by (simp add: single_durations avg_duration_def py_truediv_def filter_by_label_def no_filter_def)

section \<open>The monthly pass\<close>

text \<open>
  Claim C6 fails on the code. The two month lists are filtered independently, and
  \<^verbatim>\<open>pd.DataFrame\<close> refuses two columns of different lengths: for a record with a creation
  timestamp and no update timestamp the lists are \<open>[''2024-01'']\<close> and \<open>[]\<close>, and the
  pass raises \<^verbatim>\<open>ValueError\<close> instead of building the two tables.
\<close>

theorem seasonal_trends_raises_on_unequal_counts:
  "created_month half_dated_issues = [''2024-01'']
   \<and> closed_month half_dated_issues = []
   \<and> seasonal_trends_analysis no_filter (calculate_issue_durations no_filter half_dated_issues) =
     Inl ValueError"
  by (simp add: half_dated_issues_def loaded_issue_def set_duration_def
        seasonal_trends_analysis_def DataFrame_def strftime_Ym_def datetime_ymd_def digit_char_def)

text \<open>
  What the monthly pass computes otherwise. The pass raises \<^verbatim>\<open>ValueError\<close> exactly when
  the number of records with a creation timestamp differs from the number of records with
  an update timestamp. When the two numbers agree, each table lists the observed months
  once, in ascending order of the month strings, each with the number of records whose
  timestamp falls in that month. For years below 10000 the order of the month strings is
  the chronological order of (year, month).
\<close>

lemma of_char_digits: "k < 10 \<Longrightarrow> of_char (''0123456789'' ! k) = (48 + k :: nat)"
proof -
  assume "k < 10"
  then have "k = 0 \<or> k = 1 \<or> k = 2 \<or> k = 3 \<or> k = 4 \<or> k = 5 \<or> k = 6 \<or> k = 7 \<or> k = 8 \<or> k = 9"
    by arith
  then show ?thesis by (elim disjE) simp_all
qed

lemma of_char_digit_char: "of_char (digit_char n) = (48 + n mod 10 :: nat)"
  using of_char_digits [of "n mod 10"] by (simp add: digit_char_def)

lemma digit_char_less: "digit_char a < digit_char b \<longleftrightarrow> a mod 10 < b mod 10"
  by (simp add: less_char_def of_char_digit_char)

lemma digit_char_eq: "digit_char a = digit_char b \<longleftrightarrow> a mod 10 = b mod 10"
proof
  assume "digit_char a = digit_char b"
  then have "(of_char (digit_char a) :: nat) = of_char (digit_char b)" by simp
  then show "a mod 10 = b mod 10" by (simp add: of_char_digit_char)
next
  assume "a mod 10 = b mod 10"
  then show "digit_char a = digit_char b" by (simp add: digit_char_def)
qed

lemma lex_digits:
  "ra < 10 \<Longrightarrow> rb < 10 \<Longrightarrow>
   (10 * qa + ra < 10 * qb + (rb::nat)) \<longleftrightarrow> (qa < qb \<or> qa = qb \<and> ra < rb)"
  by linarith

lemma less_by_last_digit:
  "(a::nat) < b \<longleftrightarrow> a div 10 < b div 10 \<or> (a div 10 = b div 10 \<and> a mod 10 < b mod 10)"
  using lex_digits [of "a mod 10" "b mod 10" "a div 10" "b div 10"] by simp

lemma eq_by_last_digit:
  "(a::nat) = b \<longleftrightarrow> a div 10 = b div 10 \<and> a mod 10 = b mod 10"
  by (metis div_mult_mod_eq)

lemma four_digits_less:
  assumes "(a::nat) < 10000" "b < 10000"
  shows "a < b \<longleftrightarrow>
     a div 1000 mod 10 < b div 1000 mod 10 \<or> a div 1000 mod 10 = b div 1000 mod 10 \<and>
    (a div 100 mod 10 < b div 100 mod 10 \<or> a div 100 mod 10 = b div 100 mod 10 \<and>
    (a div 10 mod 10 < b div 10 mod 10 \<or> a div 10 mod 10 = b div 10 mod 10 \<and>
     a mod 10 < b mod 10))"
proof -
  have top: "a div 1000 mod 10 = a div 1000" "b div 1000 mod 10 = b div 1000"
    using assms by simp_all
  have l0: "a < b \<longleftrightarrow> a div 10 < b div 10 \<or> (a div 10 = b div 10 \<and> a mod 10 < b mod 10)"
    by (rule less_by_last_digit)
  have l1: "a div 10 < b div 10 \<longleftrightarrow>
      a div 100 < b div 100 \<or> (a div 100 = b div 100 \<and> a div 10 mod 10 < b div 10 mod 10)"
    using less_by_last_digit [of "a div 10" "b div 10"] by (simp add: div_mult2_eq [symmetric])
  have e1: "a div 10 = b div 10 \<longleftrightarrow>
      a div 100 = b div 100 \<and> a div 10 mod 10 = b div 10 mod 10"
    using eq_by_last_digit [of "a div 10" "b div 10"] by (simp add: div_mult2_eq [symmetric])
  have l2: "a div 100 < b div 100 \<longleftrightarrow>
      a div 1000 < b div 1000 \<or> (a div 1000 = b div 1000 \<and> a div 100 mod 10 < b div 100 mod 10)"
    using less_by_last_digit [of "a div 100" "b div 100"] by (simp add: div_mult2_eq [symmetric])
  have e2: "a div 100 = b div 100 \<longleftrightarrow>
      a div 1000 = b div 1000 \<and> a div 100 mod 10 = b div 100 mod 10"
    using eq_by_last_digit [of "a div 100" "b div 100"] by (simp add: div_mult2_eq [symmetric])
  show ?thesis
    by (simp only: top l0 l1 e1 l2 e2 conj_disj_distribL conj_assoc disj_assoc)
qed

lemma four_digits_eq:
  assumes "(a::nat) < 10000" "b < 10000"
  shows "a = b \<longleftrightarrow>
     a div 1000 mod 10 = b div 1000 mod 10 \<and> a div 100 mod 10 = b div 100 mod 10 \<and>
     a div 10 mod 10 = b div 10 mod 10 \<and> a mod 10 = b mod 10"
proof -
  have top: "a div 1000 mod 10 = a div 1000" "b div 1000 mod 10 = b div 1000"
    using assms by simp_all
  have e0: "a = b \<longleftrightarrow> a div 10 = b div 10 \<and> a mod 10 = b mod 10"
    by (rule eq_by_last_digit)
  have e1: "a div 10 = b div 10 \<longleftrightarrow>
      a div 100 = b div 100 \<and> a div 10 mod 10 = b div 10 mod 10"
    using eq_by_last_digit [of "a div 10" "b div 10"] by (simp add: div_mult2_eq [symmetric])
  have e2: "a div 100 = b div 100 \<longleftrightarrow>
      a div 1000 = b div 1000 \<and> a div 100 mod 10 = b div 100 mod 10"
    using eq_by_last_digit [of "a div 100" "b div 100"] by (simp add: div_mult2_eq [symmetric])
  show ?thesis
    by (simp only: top e0 e1 e2 conj_assoc)
qed

lemma two_digits_less:
  assumes "(a::nat) < 100" "b < 100"
  shows "a < b \<longleftrightarrow>
     a div 10 mod 10 < b div 10 mod 10 \<or> a div 10 mod 10 = b div 10 mod 10 \<and> a mod 10 < b mod 10"
proof -
  have top: "a div 10 mod 10 = a div 10" "b div 10 mod 10 = b div 10"
    using assms by simp_all
  show ?thesis unfolding top by (rule less_by_last_digit)
qed

lemma two_digits_eq:
  assumes "(a::nat) < 100" "b < 100"
  shows "a = b \<longleftrightarrow> a div 10 mod 10 = b div 10 mod 10 \<and> a mod 10 = b mod 10"
proof -
  have top: "a div 10 mod 10 = a div 10" "b div 10 mod 10 = b div 10"
    using assms by simp_all
  show ?thesis unfolding top by (rule eq_by_last_digit)
qed

lemma strftime_Ym_less:
  assumes "year a < 10000" "year b < 10000" "month a < 100" "month b < 100"
  shows "strftime_Ym a < strftime_Ym b \<longleftrightarrow>
         year a < year b \<or> (year a = year b \<and> month a < month b)"
  unfolding four_digits_less [OF assms(1,2)] four_digits_eq [OF assms(1,2)]
    two_digits_less [OF assms(3,4)]
  by (simp add: strftime_Ym_def digit_char_less digit_char_eq) blast

lemma strftime_Ym_eq:
  assumes "year a < 10000" "year b < 10000" "month a < 100" "month b < 100"
  shows "strftime_Ym a = strftime_Ym b \<longleftrightarrow> year a = year b \<and> month a = month b"
  unfolding four_digits_eq [OF assms(1,2)] two_digits_eq [OF assms(3,4)]
  by (simp add: strftime_Ym_def digit_char_eq)

lemma sort_index_value_counts:
  "sort_index (value_counts xs) = map (\<lambda>k. (k, count_list xs k)) (sort (remdups xs))"
proof -
  let ?items = "count_values xs []"
  let ?L = "sort_index (value_counts xs)"
  have set_L: "set ?L = set ?items"
    by (simp add: sort_index_def value_counts_def set_sorted_reverse)
  have "distinct (map fst ?items)"
    by (simp add: distinct_keys_count_values)
  then have "distinct (map fst (value_counts xs))"
    unfolding value_counts_def by (rule distinct_keys_sorted_reverse)
  then have dist: "distinct (map fst ?L)"
    by (simp add: sort_index_def distinct_map)
  have sorted: "sorted (map fst ?L)"
    by (simp add: sort_index_def)
  have "set (map fst ?items) = set xs"
    by (simp only: keys_count_values) simp
  then have "set (map fst ?L) = set xs"
    using set_L by simp
  then have keys: "map fst ?L = sort (remdups xs)"
    using dist sorted by (intro sorted_distinct_set_unique) simp_all
  have "\<forall>p \<in> set ?L. snd p = count_list xs (fst p)"
    using set_L entries_count_values [of _ _ xs] by (metis prod.collapse)
  then have "?L = map (\<lambda>k. (k, count_list xs k)) (map fst ?L)"
    by (rule entries_by_key)
  then show ?thesis by (simp only: keys)
qed

lemma count_created_month:
  "count_list (created_month issues) k =
   length (filter (\<lambda>i. \<exists>c. created_date i = Some c \<and> strftime_Ym c = k) issues)"
  by (induction issues) (auto split: option.splits)

lemma count_closed_month:
  "count_list (closed_month issues) k =
   length (filter (\<lambda>i. \<exists>u. updated_date i = Some u \<and> strftime_Ym u = k) issues)"
  by (induction issues) (auto split: option.splits)

lemma length_created_month:
  "length (created_month issues) = length (filter (\<lambda>i. created_date i \<noteq> None) issues)"
  by (induction issues) (auto split: option.splits)

lemma length_closed_month:
  "length (closed_month issues) = length (filter (\<lambda>i. updated_date i \<noteq> None) issues)"
  by (induction issues) (auto split: option.splits)

lemma seasonal_trends_tables:
  assumes "length (filter (\<lambda>i. created_date i \<noteq> None) issues) =
           length (filter (\<lambda>i. updated_date i \<noteq> None) issues)"
  shows "\<exists>created_counts closed_counts.
      seasonal_trends_analysis self issues = Inr (created_counts, closed_counts)
    \<and> sorted (map fst created_counts) \<and> distinct (map fst created_counts)
    \<and> sorted (map fst closed_counts) \<and> distinct (map fst closed_counts)
    \<and> set (map fst created_counts) = set (created_month issues)
    \<and> set (map fst closed_counts) = set (closed_month issues)
    \<and> (\<forall>(k, n) \<in> set created_counts.
          n = length (filter (\<lambda>i. \<exists>c. created_date i = Some c \<and> strftime_Ym c = k) issues))
    \<and> (\<forall>(k, n) \<in> set closed_counts.
          n = length (filter (\<lambda>i. \<exists>u. updated_date i = Some u \<and> strftime_Ym u = k) issues))"
proof -
  have len: "length (created_month issues) = length (closed_month issues)"
    using assms by (simp add: length_created_month length_closed_month)
  then have "seasonal_trends_analysis self issues =
      Inr (sort_index (value_counts (created_month issues)),
           sort_index (value_counts (closed_month issues)))"
    by (simp add: seasonal_trends_analysis_def DataFrame_def)
  then show ?thesis
    by (simp add: sort_index_value_counts comp_def count_created_month count_closed_month
          image_image)
qed

lemma seasonal_trends_unequal:
  assumes "length (filter (\<lambda>i. created_date i \<noteq> None) issues) \<noteq>
           length (filter (\<lambda>i. updated_date i \<noteq> None) issues)"
  shows "seasonal_trends_analysis self issues = Inl ValueError"
  using assms
  by (simp add: seasonal_trends_analysis_def DataFrame_def length_created_month
        length_closed_month)

section \<open>The whole run\<close>

text \<open>
  Claim C9. The duration pass rewrites every \<open>duration_days\<close> with the value it already
  has, and a second run on the sequence the first run left behind ends as the first one
  did: the same sequence, and the same three charts or the same exception. (A run on a
  fresh copy of the input is the same function applied to the same argument.)
\<close>

theorem run_idempotent:
  "calculate_issue_durations self (calculate_issue_durations self issues) =
     calculate_issue_durations self issues
   \<and> run self (fst (run self issues)) = run self issues"
  by (simp add: run_def Let_def calculate_issue_durations_idem)

text \<open>
  Claim C8. Only \<open>issue_lifecycle_visualization\<close> reads the label filter. For two analyzers
  that differ in their filter, the monthly pass and the bottleneck pass (its mean, subset
  and counts are computed from the sequence alone) give the same result on every sequence,
  the duration pass leaves the same sequence, and two runs that both reach their end plot
  the same monthly tables and the same bottleneck counts. With a filter set (a non-empty
  string), the label pass is the unfiltered label pass on the records that carry the filter
  value.
\<close>

theorem label_filter_is_local:
  "seasonal_trends_analysis self issues = seasonal_trends_analysis self' issues
   \<and> bottleneck_analysis self issues = bottleneck_analysis self' issues
   \<and> calculate_issue_durations self issues = calculate_issue_durations self' issues
   \<and> fst (run self issues) = fst (run self' issues)
   \<and> (\<forall>c d. snd (run self issues) = Inr c \<and> snd (run self' issues) = Inr d
          \<longrightarrow> trend_chart c = trend_chart d \<and> bottleneck_chart c = bottleneck_chart d)
   \<and> (\<forall>g. label_filter self = Some g \<and> g \<noteq> [] \<and> label_filter self' = None \<longrightarrow>
          issue_lifecycle_visualization self issues =
          issue_lifecycle_visualization self' (filter (\<lambda>i. g \<in> set (labels i)) issues))"
proof (intro conjI allI impI)
  show t: "\<And>xs. seasonal_trends_analysis self xs = seasonal_trends_analysis self' xs"
    by (simp add: seasonal_trends_analysis_def)
  show b: "\<And>xs. bottleneck_analysis self xs = bottleneck_analysis self' xs"
    by (simp add: bottleneck_analysis_def)
  show c: "calculate_issue_durations self issues = calculate_issue_durations self' issues"
    by (simp add: calculate_issue_durations_map)
  then show "fst (run self issues) = fst (run self' issues)"
    by (simp add: run_def Let_def)
  {
    fix c d
    assume "snd (run self issues) = Inr c \<and> snd (run self' issues) = Inr d"
    then have "trend_chart c = trend_chart d \<and> bottleneck_chart c = bottleneck_chart d"
      by (auto simp: run_def Let_def c t b split: sum.splits)
    then show "trend_chart c = trend_chart d" "bottleneck_chart c = bottleneck_chart d"
      by simp_all
  }
  fix g assume "label_filter self = Some g \<and> g \<noteq> [] \<and> label_filter self' = None"
  then show "issue_lifecycle_visualization self issues =
          issue_lifecycle_visualization self' (filter (\<lambda>i. g \<in> set (labels i)) issues)"
    by (simp add: issue_lifecycle_visualization_def filter_by_label_def)
qed

lemma scenario_durations:
  "calculate_issue_durations self scenario_issues =
     [(issue_open_for 1 4 [''bug''])\<lparr>duration_days := Some 4\<rparr>,
      (issue_open_for 2 10 [''bug'', ''ui''])\<lparr>duration_days := Some 10\<rparr>]"
  by (simp add: scenario_issues_def duration_issue_open_for)

lemma scenario_lifecycle_unfiltered:
  "issue_lifecycle_visualization no_filter (calculate_issue_durations no_filter scenario_issues) =
     Inr ([''bug'', ''ui''], [7, 10])"
  by (simp add: scenario_durations issue_lifecycle_visualization_def filter_by_label_def
        no_filter_def labels_issue_open_for py_truediv_def unzip_items_def)

lemma scenario_lifecycle_ui:
  "issue_lifecycle_visualization ui_filter (calculate_issue_durations ui_filter scenario_issues) =
     Inr ([''bug'', ''ui''], [10, 10])"
  by (simp add: scenario_durations issue_lifecycle_visualization_def filter_by_label_def
        ui_filter_def labels_issue_open_for py_truediv_def unzip_items_def)

lemma strftime_2024_01: "strftime_Ym (datetime_ymd 2024 (Suc 0) d) = ''2024-01''"
  by (simp add: strftime_Ym_def datetime_ymd_def digit_char_def)

lemma scenario_trends:
  "seasonal_trends_analysis self (calculate_issue_durations self' scenario_issues) =
     Inr ([(''2024-01'', 2)], [(''2024-01'', 2)])"
  by (simp add: scenario_durations seasonal_trends_analysis_def DataFrame_def
        issue_open_for_def loaded_issue_def strftime_2024_01 value_counts_def
        sorted_reverse_def sort_index_def)

lemma scenario_bottleneck:
  "bottleneck_analysis self (calculate_issue_durations self' scenario_issues) =
     Inr ([''bug'', ''ui''], [1, 1])"
  by (simp add: scenario_durations bottleneck_analysis_def avg_duration_def py_truediv_def
        labels_issue_open_for sorted_reverse_def unzip_items_def)

theorem label_filter_is_local_witness:
  "snd (run ui_filter scenario_issues) =
     Inr \<lparr>lifecycle_chart = ([''bug'', ''ui''], [10, 10]),
          trend_chart = ([(''2024-01'', 2)], [(''2024-01'', 2)]),
          bottleneck_chart = ([''bug'', ''ui''], [1, 1])\<rparr>
   \<and> snd (run no_filter scenario_issues) =
     Inr \<lparr>lifecycle_chart = ([''bug'', ''ui''], [7, 10]),
          trend_chart = ([(''2024-01'', 2)], [(''2024-01'', 2)]),
          bottleneck_chart = ([''bug'', ''ui''], [1, 1])\<rparr>
   \<and> label_filter ui_filter = Some ''ui'' \<and> ''ui'' \<noteq> [] \<and> label_filter no_filter = None
   \<and> issue_lifecycle_visualization ui_filter scenario_issues =
       issue_lifecycle_visualization no_filter
         (filter (\<lambda>i. ''ui'' \<in> set (labels i)) scenario_issues)"
proof -
  have r1: "snd (run ui_filter scenario_issues) =
     Inr \<lparr>lifecycle_chart = ([''bug'', ''ui''], [10, 10]),
          trend_chart = ([(''2024-01'', 2)], [(''2024-01'', 2)]),
          bottleneck_chart = ([''bug'', ''ui''], [1, 1])\<rparr>"
    by (simp add: run_def Let_def scenario_lifecycle_ui scenario_trends scenario_bottleneck)
  have r2: "snd (run no_filter scenario_issues) =
     Inr \<lparr>lifecycle_chart = ([''bug'', ''ui''], [7, 10]),
          trend_chart = ([(''2024-01'', 2)], [(''2024-01'', 2)]),
          bottleneck_chart = ([''bug'', ''ui''], [1, 1])\<rparr>"
    by (simp add: run_def Let_def scenario_lifecycle_unfiltered scenario_trends
          scenario_bottleneck)
  have g: "label_filter ui_filter = Some ''ui'' \<and> ''ui'' \<noteq> [] \<and> label_filter no_filter = None"
    by (simp add: ui_filter_def no_filter_def)
  with label_filter_is_local [of ui_filter scenario_issues no_filter]
  have "issue_lifecycle_visualization ui_filter scenario_issues =
       issue_lifecycle_visualization no_filter
         (filter (\<lambda>i. ''ui'' \<in> set (labels i)) scenario_issues)"
    by blast
  with r1 r2 g show ?thesis by simp
qed

end
